theory Spec2Isabelle
  imports Complex_Main "HOL-Library.Word" "HOL-Library.Sublist"
begin

section \<open>The admin migration of OpenCycle: data model\<close>

text \<open>
  The analytics aggregator lives in one SQL migration: two tables (\<open>admin_settings\<close>,
  \<open>admin_logs\<close>), row-level-security policies, and four PL/pgSQL functions
  (\<open>log_admin_action\<close>, \<open>get_platform_analytics\<close>, \<open>get_user_growth_data\<close>,
  \<open>get_category_distribution\<close>). Tables are lists of rows; a nullable column is an
  \<open>option\<close>. Only the columns that the four functions and the policies read or write are
  kept.

  Conventions of the embedding:
  \<^item> a \<open>timestamptz\<close> is an integer count of microseconds since the epoch and a \<open>date\<close> is
    an integer count of days since the epoch; the session time zone is taken to be UTC, so
    that the cast \<open>ts::date\<close> is floor division by the length of a day and the cast of a
    date to a timestamp is midnight of that day. Where the code computes a timestamp,
    the result is checked against the range of the type (\<open>timestamp_in_range\<close>).
    \<open>bigint\<close> counts are unbounded integers (a table cannot hold \<open>2^63\<close> rows), and an
    \<open>integer\<close> parameter is an integer, one the function can receive when it is
    \<open>int4_in_range\<close>;
  \<^item> a \<open>uuid\<close> is a 128-bit word;
  \<^item> \<open>numeric\<close> values are rationals: the quotient inside the percentage is taken exactly
    before it is rounded to two decimal places;
  \<^item> every statement that can raise returns \<open>pg_error + result\<close>.
\<close>

type_synonym uuid = "128 word"
type_synonym timestamptz = int
type_synonym sql_date = int

record user_row =
  u_id :: uuid
  u_email :: string
  u_created_at :: timestamptz

record item_row =
  i_id :: uuid
  i_category :: string
  i_is_available :: bool
  i_created_at :: timestamptz

record item_view_row =
  v_id :: uuid
  v_user_id :: "uuid option"
  v_created_at :: timestamptz

record report_row =
  r_id :: uuid
  r_status :: string

record admin_log_row =
  l_id :: uuid
  l_admin_id :: "uuid option"
  l_action :: string
  l_target_type :: "string option"
  l_target_id :: "uuid option"
  l_details :: "string option"
  l_ip_address :: "string option"
  l_user_agent :: "string option"
  l_created_at :: timestamptz

record database =
  users :: "user_row list"
  items :: "item_row list"
  item_views :: "item_view_row list"
  favorites :: "uuid list"
  messages :: "uuid list"
  reports :: "report_row list"
  admin_logs :: "admin_log_row list"

text \<open>
  What a statement reads from its session: \<open>auth.uid()\<close>, \<open>inet_client_addr()\<close>, the
  \<open>request.headers\<close> setting, the value the next \<open>gen_random_uuid()\<close> yields, and
  \<open>now()\<close>. The setting is a text that the code casts to \<open>json\<close>: it is not there, or it
  is a JSON object (its keys in the order of the text, each with its value as text, null
  for a JSON null), or another JSON value, or a text that is not JSON (the empty text
  that a setting which was set and reset leaves behind is one).
\<close>

datatype headers_setting =
    headers_not_set
  | headers_object "(string \<times> string option) list"
  | headers_other_json
  | headers_not_json string

record session =
  auth_uid :: "uuid option"
  inet_client_addr :: "string option"
  request_headers :: headers_setting
  gen_random_uuid :: uuid
  now :: timestamptz

datatype pg_error =
    ambiguous_column string
  | datatype_mismatch nat
  | division_by_zero
  | datetime_field_overflow
  | invalid_text_representation string
  | not_null_violation
  | unique_violation
  | foreign_key_violation
  | row_security_violation

subsection \<open>Dates and counting\<close>

definition usecs_per_day :: int where
  "usecs_per_day = 86400000000"

definition date_of :: "timestamptz \<Rightarrow> sql_date" where
  \<comment> \<open>\<open>created_at::date\<close>\<close>
  "date_of ts = ts div usecs_per_day"

definition midnight :: "sql_date \<Rightarrow> timestamptz" where
  \<comment> \<open>a date compared with a \<open>timestamptz\<close> is the start of that day\<close>
  "midnight d = d * usecs_per_day"

definition current_date :: "session \<Rightarrow> sql_date" where
  \<comment> \<open>\<open>CURRENT_DATE\<close>\<close>
  "current_date s = date_of (now s)"

definition min_day :: sql_date where
  \<comment> \<open>the day of the first timestamp, 24 November 4714 BC, counted from 1970-01-01\<close>
  "min_day = - 2440588"

definition end_day :: sql_date where
  \<comment> \<open>the day after the last timestamp, 1 January 294277\<close>
  "end_day = 106762940"

definition timestamp_in_range :: "sql_date \<Rightarrow> bool" where
  \<comment> \<open>midnight of the day is a value of type \<open>timestamp\<close>\<close>
  "timestamp_in_range d = (min_day \<le> d \<and> d < end_day)"

definition int4_in_range :: "int \<Rightarrow> bool" where
  \<comment> \<open>a value of type \<open>integer\<close>\<close>
  "int4_in_range w = (- 2147483648 \<le> w \<and> w \<le> 2147483647)"

definition count_rows :: "'a list \<Rightarrow> int" where
  \<comment> \<open>\<open>COUNT(*)\<close>\<close>
  "count_rows xs = int (length xs)"

definition count_distinct :: "'a option list \<Rightarrow> int" where
  \<comment> \<open>\<open>COUNT(DISTINCT c)\<close>: nulls are not counted\<close>
  "count_distinct xs = int (length (remdups (map the (filter (\<lambda>x. x \<noteq> None) xs))))"

subsection \<open>PL/pgSQL: \<open>RETURNS TABLE\<close> and \<open>RETURN QUERY\<close>\<close>

text \<open>
  Three things decide whether a \<open>RETURN QUERY\<close> yields rows at all, in this order.
  \<^item> The parameters and the \<open>RETURNS TABLE\<close> columns of a function are variables of its
    body. An unqualified column reference of an embedded query that is also the name of
    such a variable cannot be resolved (the default \<open>plpgsql.variable_conflict = error\<close>):
    the statement raises \<open>ambiguous_column\<close> when it is analysed.
  \<^item> The planner estimates a \<open>WHERE\<close> clause that compares a column with an expression
    of parameters and the clock by evaluating that expression: an error of the expression
    is raised while the statement is planned.
  \<^item> The column types of the query must be the declared column types, one by one, with
    no cast applied; otherwise the statement raises \<open>datatype_mismatch\<close> ("structure of
    query does not match function result type") before any row is produced.
  A query is described here by the unqualified column references in its text and by the
  types of its output columns, computed from the result types of the aggregates it uses.
\<close>

datatype sql_type = T_integer | T_bigint | T_numeric | T_date | T_text

definition count_type :: sql_type where
  \<comment> \<open>\<open>COUNT\<close> returns \<open>bigint\<close>\<close>
  "count_type = T_bigint"

fun sum_type :: "sql_type \<Rightarrow> sql_type" where
  \<comment> \<open>\<open>SUM(integer)\<close> is \<open>bigint\<close>; \<open>SUM(bigint)\<close> and \<open>SUM(numeric)\<close> are \<open>numeric\<close>\<close>
  "sum_type T_integer = T_bigint"
| "sum_type T_bigint = T_numeric"
| "sum_type t = t"

fun coalesce_type :: "sql_type \<Rightarrow> sql_type \<Rightarrow> sql_type" where
  \<comment> \<open>the wider of two integer types\<close>
  "coalesce_type T_integer t = t"
| "coalesce_type t T_integer = t"
| "coalesce_type t _ = t"

fun first_mismatch :: "nat \<Rightarrow> sql_type list \<Rightarrow> sql_type list \<Rightarrow> nat option" where
  "first_mismatch k [] [] = None"
| "first_mismatch k (d # ds) (a # as) =
     (if d = a then first_mismatch (Suc k) ds as else Some k)"
| "first_mismatch k _ _ = Some k"

definition return_query ::
  "string list \<Rightarrow> string list \<Rightarrow> pg_error option \<Rightarrow> sql_type list \<Rightarrow> sql_type list \<Rightarrow>
   (pg_error + 'r list) \<Rightarrow> pg_error + 'r list" where
  "return_query variables column_refs planning declared returned rows =
     (case filter (\<lambda>c. c \<in> set variables) column_refs of
        c # _ \<Rightarrow> Inl (ambiguous_column c)
      | [] \<Rightarrow> (case planning of
                 Some e \<Rightarrow> Inl e
               | None \<Rightarrow> (case first_mismatch 1 declared returned of
                            Some k \<Rightarrow> Inl (datatype_mismatch k)
                          | None \<Rightarrow> rows)))"

section \<open>\<open>get_platform_analytics\<close>\<close>

record platform_analytics =
  total_users :: int
  total_items :: int
  total_views :: int
  total_favorites :: int
  total_messages :: int
  total_reports :: int
  active_users_today :: int
  new_users_today :: int
  new_items_today :: int
  pending_reports :: int

definition get_platform_analytics_query :: "session \<Rightarrow> database \<Rightarrow> platform_analytics list" where
  "get_platform_analytics_query s db =
     [\<lparr> total_users = count_rows (users db),
        total_items = count_rows (items db),
        total_views = count_rows (item_views db),
        total_favorites = count_rows (favorites db),
        total_messages = count_rows (messages db),
        total_reports = count_rows (reports db),
        active_users_today =
          count_distinct (map v_user_id
            (filter (\<lambda>v. v_created_at v \<ge> midnight (current_date s)) (item_views db))),
        new_users_today =
          count_rows (filter (\<lambda>u. u_created_at u \<ge> midnight (current_date s)) (users db)),
        new_items_today =
          count_rows (filter (\<lambda>i. i_created_at i \<ge> midnight (current_date s)) (items db)),
        pending_reports =
          count_rows (filter (\<lambda>r. r_status r = ''pending'') (reports db)) \<rparr>]"

definition get_platform_analytics_variables :: "string list" where
  "get_platform_analytics_variables =
     [''days_back'', ''total_users'', ''total_items'', ''total_views'', ''total_favorites'',
      ''total_messages'', ''total_reports'', ''active_users_today'', ''new_users_today'',
      ''new_items_today'', ''pending_reports'']"

definition get_platform_analytics_column_refs :: "string list" where
  "get_platform_analytics_column_refs =
     [''user_id'', ''created_at'', ''created_at'', ''created_at'', ''status'']"

definition get_platform_analytics ::
  "session \<Rightarrow> int option \<Rightarrow> database \<Rightarrow> pg_error + platform_analytics list" where
  \<comment> \<open>\<open>days_back\<close> is declared and never read\<close>
  "get_platform_analytics s days_back db =
     return_query get_platform_analytics_variables get_platform_analytics_column_refs None
       (replicate 10 T_bigint) (replicate 10 count_type)
       (Inr (get_platform_analytics_query s db))"

section \<open>Relational operators used by the queries\<close>

definition group_count :: "'k list \<Rightarrow> ('k \<times> int) list" where
  \<comment> \<open>\<open>SELECT k, COUNT(*) ... GROUP BY k\<close>: one row per distinct key\<close>
  "group_count ks = map (\<lambda>k. (k, count_rows (filter (\<lambda>x. x = k) ks))) (remdups ks)"

definition left_join :: "('a \<Rightarrow> 'b \<Rightarrow> bool) \<Rightarrow> 'a list \<Rightarrow> 'b list \<Rightarrow> ('a \<times> 'b option) list" where
  \<comment> \<open>a left row with no partner is kept once, with nulls on the right\<close>
  "left_join on xs ys =
     concat (map (\<lambda>x. case filter (on x) ys of
                          [] \<Rightarrow> [(x, None)]
                        | m # ms \<Rightarrow> map (\<lambda>y. (x, Some y)) (m # ms)) xs)"

definition cross_join :: "'a list \<Rightarrow> 'b list \<Rightarrow> ('a \<times> 'b) list" where
  "cross_join xs ys = concat (map (\<lambda>x. map (\<lambda>y. (x, y)) ys) xs)"

definition coalesce :: "'a option \<Rightarrow> 'a \<Rightarrow> 'a" where
  "coalesce v d = (case v of None \<Rightarrow> d | Some x \<Rightarrow> x)"

definition sum_over_order_by :: "('r \<Rightarrow> int) \<Rightarrow> ('r \<Rightarrow> int) \<Rightarrow> 'r list \<Rightarrow> 'r \<Rightarrow> int" where
  \<comment> \<open>\<open>SUM(val) OVER (ORDER BY key)\<close>: the default frame runs from the first row to the
      current row and its peers\<close>
  "sum_over_order_by key val rows r = sum_list (map val (filter (\<lambda>r'. key r' \<le> key r) rows))"

definition sum_rows :: "int list \<Rightarrow> int option" where
  \<comment> \<open>\<open>SUM\<close> over no rows is null\<close>
  "sum_rows xs = (if xs = [] then None else Some (sum_list xs))"

definition numeric_div :: "rat option \<Rightarrow> rat option \<Rightarrow> pg_error + rat option" where
  \<comment> \<open>a null operand gives null; a zero divisor raises\<close>
  "numeric_div a b =
     (case (a, b) of
        (Some x, Some y) \<Rightarrow> if y = 0 then Inl division_by_zero else Inr (Some (x / y))
      | _ \<Rightarrow> Inr None)"

definition round_numeric :: "rat \<Rightarrow> nat \<Rightarrow> rat" where
  \<comment> \<open>\<open>ROUND(x, d)\<close> on \<open>numeric\<close>: ties go away from zero\<close>
  "round_numeric x d = sgn x * of_int \<lfloor>\<bar>x\<bar> * 10 ^ d + 1 / 2\<rfloor> / 10 ^ d"

fun all_rows :: "(pg_error + 'r) list \<Rightarrow> pg_error + 'r list" where
  \<comment> \<open>the first row whose expressions raise aborts the statement\<close>
  "all_rows [] = Inr []"
| "all_rows (Inl e # rs) = Inl e"
| "all_rows (Inr r # rs) = (case all_rows rs of Inl e \<Rightarrow> Inl e | Inr rs' \<Rightarrow> Inr (r # rs'))"

section \<open>\<open>get_user_growth_data\<close>\<close>

record growth_row =
  date :: sql_date
  new_users :: int
  cumulative_users :: int

definition window_start :: "session \<Rightarrow> int option \<Rightarrow> pg_error + sql_date option" where
  \<comment> \<open>\<open>CURRENT_DATE - INTERVAL '1 day' * days_back\<close>, a \<open>timestamp\<close>: null for a null
      \<open>days_back\<close>, and \<open>datetime_field_overflow\<close> (interval or timestamp out of range) when
      the day it names is not in the range of the type\<close>
  "window_start s days_back =
     (case days_back of
        None \<Rightarrow> Inr None
      | Some w \<Rightarrow> if timestamp_in_range (current_date s - w)
                  then Inr (Some (current_date s - w))
                  else Inl datetime_field_overflow)"

definition generate_series :: "sql_date option \<Rightarrow> sql_date \<Rightarrow> pg_error + sql_date list" where
  \<comment> \<open>\<open>generate_series(start, stop, INTERVAL '1 day')::date\<close>: every day from start to stop,
      no row when start is after stop or null. The function adds the step to every value
      it returns, the last one included, and that sum must be a timestamp too\<close>
  "generate_series start stop =
     (case start of
        None \<Rightarrow> Inr []
      | Some d \<Rightarrow> if d \<le> stop \<and> \<not> timestamp_in_range (stop + 1)
                  then Inl datetime_field_overflow
                  else Inr [d..stop])"

definition date_series :: "session \<Rightarrow> sql_date option \<Rightarrow> pg_error + sql_date list" where
  "date_series s start = generate_series start (current_date s)"

definition daily_users :: "sql_date option \<Rightarrow> database \<Rightarrow> (sql_date \<times> int) list" where
  \<comment> \<open>a comparison with null is not true, so a null window start keeps no user\<close>
  "daily_users start db =
     group_count (map (\<lambda>u. date_of (u_created_at u))
       (filter (\<lambda>u. case start of
                       None \<Rightarrow> False
                     | Some d \<Rightarrow> u_created_at u \<ge> midnight d) (users db)))"

definition get_user_growth_data_query ::
  "session \<Rightarrow> int option \<Rightarrow> database \<Rightarrow> pg_error + growth_row list" where
  "get_user_growth_data_query s days_back db =
     (case window_start s days_back of
        Inl e \<Rightarrow> Inl e
      | Inr start \<Rightarrow>
          (case date_series s start of
             Inl e \<Rightarrow> Inl e
           | Inr ds \<Rightarrow>
               (let joined = left_join (\<lambda>ds du. ds = fst du) ds (daily_users start db);
                    new = (\<lambda>j. coalesce (map_option snd (snd j)) 0)
                in Inr (sort_key date
                     (map (\<lambda>j. \<lparr> date = fst j,
                                 new_users = new j,
                                 cumulative_users = sum_over_order_by fst new joined j \<rparr>)
                        joined)))))"

definition get_user_growth_data_variables :: "string list" where
  "get_user_growth_data_variables = [''days_back'', ''date'', ''new_users'', ''cumulative_users'']"

definition get_user_growth_data_column_refs :: "string list" where
  \<comment> \<open>\<open>created_at\<close> in the select list, the \<open>WHERE\<close> and the \<open>GROUP BY\<close> of \<open>daily_users\<close>;
      every other column is written with its table alias\<close>
  "get_user_growth_data_column_refs = [''created_at'', ''created_at'', ''created_at'']"

definition get_user_growth_data_returned :: "sql_type list" where
  \<comment> \<open>\<open>ds.date\<close>, \<open>COALESCE(du.new_users, 0)\<close>, \<open>SUM(COALESCE(du.new_users, 0)) OVER (...)\<close>\<close>
  "get_user_growth_data_returned =
     [T_date, coalesce_type count_type T_integer, sum_type (coalesce_type count_type T_integer)]"

definition get_user_growth_data ::
  "session \<Rightarrow> int option \<Rightarrow> database \<Rightarrow> pg_error + growth_row list" where
  \<comment> \<open>the planner evaluates the bound of the \<open>WHERE\<close> clause of \<open>daily_users\<close>\<close>
  "get_user_growth_data s days_back db =
     return_query get_user_growth_data_variables get_user_growth_data_column_refs
       (case window_start s days_back of Inl e \<Rightarrow> Some e | Inr start \<Rightarrow> None)
       [T_date, T_bigint, T_bigint] get_user_growth_data_returned
       (get_user_growth_data_query s days_back db)"

section \<open>\<open>get_category_distribution\<close>\<close>

record category_row =
  category :: string
  item_count :: int
  percentage :: "rat option"

definition category_counts :: "database \<Rightarrow> (string \<times> int) list" where
  "category_counts db = group_count (map i_category (filter (\<lambda>i. i_is_available i = True) (items db)))"

definition total_items_cte :: "(string \<times> int) list \<Rightarrow> int option list" where
  \<comment> \<open>an aggregate without \<open>GROUP BY\<close> yields exactly one row\<close>
  "total_items_cte cc = [sum_rows (map snd cc)]"

definition percentage_expr :: "int \<Rightarrow> int option \<Rightarrow> pg_error + rat option" where
  \<comment> \<open>\<open>ROUND((cc.item_count::numeric / ti.total::numeric) * 100, 2)\<close>\<close>
  "percentage_expr n ti_total =
     (case numeric_div (Some (of_int n)) (map_option of_int ti_total) of
        Inl e \<Rightarrow> Inl e
      | Inr q \<Rightarrow> Inr (map_option (\<lambda>x. round_numeric (x * 100) 2) q))"

definition get_category_distribution_query :: "database \<Rightarrow> pg_error + category_row list" where
  "get_category_distribution_query db =
     (let cc = category_counts db;
          ti = total_items_cte cc
      in map_sum id (sort_key (\<lambda>r. - item_count r))
           (all_rows (map (\<lambda>(c, t). map_sum id
                             (\<lambda>p. \<lparr> category = fst c, item_count = snd c, percentage = p \<rparr>)
                             (percentage_expr (snd c) t))
                        (cross_join cc ti))))"

definition get_category_distribution_variables :: "string list" where
  "get_category_distribution_variables = [''category'', ''item_count'', ''percentage'']"

definition get_category_distribution_column_refs :: "string list" where
  \<comment> \<open>\<open>SUM(item_count)\<close> in \<open>total_items\<close>; every other column is written with its alias\<close>
  "get_category_distribution_column_refs = [''item_count'']"

definition get_category_distribution :: "database \<Rightarrow> pg_error + category_row list" where
  \<comment> \<open>\<open>items.category\<close> is taken to be of type \<open>text\<close>\<close>
  "get_category_distribution db =
     return_query get_category_distribution_variables get_category_distribution_column_refs
       None [T_text, T_bigint, T_numeric] [T_text, count_type, T_numeric]
       (get_category_distribution_query db)"

definition sum_percentages :: "category_row list \<Rightarrow> rat" where
  \<comment> \<open>the percentages of a result, summed as \<open>SUM\<close> would (nulls add nothing)\<close>
  "sum_percentages rows = sum_list (map (\<lambda>r. coalesce (percentage r) 0) rows)"

section \<open>Administrators, the policies on \<open>admin_logs\<close>, and \<open>log_admin_action\<close>\<close>

definition is_admin :: "database \<Rightarrow> uuid option \<Rightarrow> bool" where
  \<comment> \<open>the \<open>EXISTS\<close> subquery shared by the four policies, at \<open>auth.uid() = uid\<close>; the pattern
      \<open>'%@admin.opencycle.com'\<close> matches exactly the strings that end with the text after
      the \<open>%\<close>\<close>
  "is_admin db uid =
     (\<exists>u \<in> set (users db).
        Some (u_id u) = uid \<and>
        (u_email u = ''admin@opencycle.com'' \<or> suffix ''@admin.opencycle.com'' (u_email u)))"

text \<open>
  Row-level security is enabled on \<open>admin_logs\<close> and not forced, so it binds every role
  except the owner of the table. The migration creates the table and the functions
  together, so both have one owner, and a \<open>SECURITY DEFINER\<close> function runs its body as its
  owner, whoever calls it. \<open>EXECUTE\<close> is granted to \<open>authenticated\<close>.
\<close>

datatype db_role = table_owner | authenticated

definition user_agent_header :: "session \<Rightarrow> pg_error + string option" where
  \<comment> \<open>\<open>current_setting('request.headers', true)::json->>'user-agent'\<close>: the cast raises on
      a text that is not JSON; of a key written twice, \<open>->>\<close> on \<open>json\<close> reads the last\<close>
  "user_agent_header s =
     (case request_headers s of
        headers_not_set \<Rightarrow> Inr None
      | headers_object hs \<Rightarrow>
          Inr (case map_of (rev hs) ''user-agent'' of None \<Rightarrow> None | Some v \<Rightarrow> v)
      | headers_other_json \<Rightarrow> Inr None
      | headers_not_json t \<Rightarrow> Inl (invalid_text_representation t))"

definition insert_admin_logs ::
  "db_role \<Rightarrow> session \<Rightarrow> string option \<Rightarrow> string option \<Rightarrow> uuid option \<Rightarrow> string option \<Rightarrow>
   database \<Rightarrow> pg_error + database" where
  \<comment> \<open>the \<open>INSERT\<close>: the expressions of \<open>VALUES\<close>, then the policy "Only admins can
      create logs" for a role it binds, then \<open>action NOT NULL\<close>, the primary key, and the
      foreign key of \<open>admin_id\<close>\<close>
  "insert_admin_logs role s action target_type target_id details db =
     (case user_agent_header s of
        Inl e \<Rightarrow> Inl e
      | Inr user_agent \<Rightarrow>
          if role \<noteq> table_owner \<and> \<not> is_admin db (auth_uid s) then Inl row_security_violation
          else case action of
            None \<Rightarrow> Inl not_null_violation
          | Some a \<Rightarrow>
              if gen_random_uuid s \<in> set (map l_id (admin_logs db)) then Inl unique_violation
              else if (case auth_uid s of None \<Rightarrow> False
                       | Some uid \<Rightarrow> uid \<notin> set (map u_id (users db)))
              then Inl foreign_key_violation
              else Inr (db\<lparr> admin_logs := admin_logs db @
                     [\<lparr> l_id = gen_random_uuid s,
                        l_admin_id = auth_uid s,
                        l_action = a,
                        l_target_type = target_type,
                        l_target_id = target_id,
                        l_details = details,
                        l_ip_address = inet_client_addr s,
                        l_user_agent = user_agent,
                        l_created_at = now s \<rparr>] \<rparr>))"

definition log_admin_action ::
  "session \<Rightarrow> string option \<Rightarrow> string option \<Rightarrow> uuid option \<Rightarrow> string option \<Rightarrow>
   database \<Rightarrow> pg_error + database" where
  "log_admin_action s action_name target_type_param target_id_param details_param db =
     insert_admin_logs table_owner s action_name target_type_param target_id_param
       details_param db"

text \<open>
  A call reaches \<open>log_admin_action\<close> with its arguments as text, and each is converted to
  the type of its parameter, in the order of the parameters, before the body runs.
  \<open>target_id_param\<close> is declared \<open>uuid\<close> and \<open>details_param\<close> is declared \<open>jsonb\<close>: a text
  that the input function of the type refuses aborts the call. A stored \<open>jsonb\<close> is kept as
  the text its input function returns. The input function of \<open>uuid\<close> is short and is
  written out below; that of \<open>jsonb\<close> is a parameter of the call.
\<close>

definition isxdigit :: "char \<Rightarrow> bool" where
  "isxdigit c =
     (let n = of_char c :: nat in
      (48 \<le> n \<and> n \<le> 57) \<or> (97 \<le> n \<and> n \<le> 102) \<or> (65 \<le> n \<and> n \<le> 70))"

definition hex_digit :: "char \<Rightarrow> nat" where
  "hex_digit c =
     (let n = of_char c :: nat in
      if n \<le> 57 then n - 48 else if 97 \<le> n then n - 87 else n - 55)"

fun uuid_bytes :: "nat list \<Rightarrow> string \<Rightarrow> (nat list \<times> string) option" where
  \<comment> \<open>the loop of the input function over the byte positions: two hexadecimal digits for
      each byte, and after a byte of odd position other than the last, one hyphen if there
      is one\<close>
  "uuid_bytes [] src = Some ([], src)"
| "uuid_bytes (i # is) (a # b # src) =
     (if isxdigit a \<and> isxdigit b
      then map_option (\<lambda>(bs, rest). ((hex_digit a * 16 + hex_digit b) # bs, rest))
             (uuid_bytes is
                (case src of
                   c # cs \<Rightarrow> if c = CHR ''-'' \<and> i mod 2 = 1 \<and> i < 15 then cs else src
                 | [] \<Rightarrow> src))
      else None)"
| "uuid_bytes (i # is) src = None"

definition uuid_in :: "string \<Rightarrow> uuid option" where
  \<comment> \<open>PostgreSQL's input function of \<open>uuid\<close>: an optional pair of braces around sixteen
      bytes, and nothing after them\<close>
  "uuid_in t =
     (let braces = (case t of c # cs \<Rightarrow> c = CHR ''{'' | [] \<Rightarrow> False);
          src = (if braces then tl t else t)
      in case uuid_bytes [0..<16] src of
           None \<Rightarrow> None
         | Some (bs, rest) \<Rightarrow>
             if rest = (if braces then ''}'' else [])
             then Some (foldl (\<lambda>acc b. acc * 256 + of_nat b) 0 bs)
             else None)"

definition call_log_admin_action ::
  "(string \<Rightarrow> string option) \<Rightarrow> session \<Rightarrow> string option \<Rightarrow> string option \<Rightarrow> string option \<Rightarrow>
   string option \<Rightarrow> database \<Rightarrow> pg_error + database" where
  "call_log_admin_action jsonb_in s action_name target_type_param target_id_text details_text db =
     (case (case target_id_text of
              None \<Rightarrow> Inr None
            | Some t \<Rightarrow> (case uuid_in t of
                          None \<Rightarrow> Inl (invalid_text_representation t)
                        | Some u \<Rightarrow> Inr (Some u))) of
        Inl e \<Rightarrow> Inl e
      | Inr target_id_param \<Rightarrow>
          (case (case details_text of
                   None \<Rightarrow> Inr None
                 | Some d \<Rightarrow> (case jsonb_in d of
                               None \<Rightarrow> Inl (invalid_text_representation d)
                             | Some j \<Rightarrow> Inr (Some j))) of
             Inl e \<Rightarrow> Inl e
           | Inr details_param \<Rightarrow>
               log_admin_action s action_name target_type_param target_id_param
                 details_param db))"

section \<open>Example states\<close>

definition example_session :: "uuid option \<Rightarrow> timestamptz \<Rightarrow> session" where
  "example_session uid t =
     \<lparr> auth_uid = uid, inet_client_addr = Some ''203.0.113.9'',
       request_headers = headers_object [(''user-agent'', Some ''curl/8.5.0'')],
       gen_random_uuid = 900, now = t \<rparr>"

definition example_user :: "uuid \<Rightarrow> string \<Rightarrow> timestamptz \<Rightarrow> user_row" where
  "example_user k e t = \<lparr> u_id = k, u_email = e, u_created_at = t \<rparr>"

definition example_item :: "uuid \<Rightarrow> string \<Rightarrow> bool \<Rightarrow> item_row" where
  "example_item k c a = \<lparr> i_id = k, i_category = c, i_is_available = a, i_created_at = 0 \<rparr>"

definition example_db :: "user_row list \<Rightarrow> item_row list \<Rightarrow> item_view_row list \<Rightarrow> database" where
  "example_db us its vs =
     \<lparr> users = us, items = its, item_views = vs, favorites = [], messages = [],
       reports = [], admin_logs = [] \<rparr>"

definition community_db :: database where
  \<comment> \<open>an administrator and two members; the second member signed up on day 9, the others
      on day 3; one member looked at an item on day 10\<close>
  "community_db =
     example_db
       [example_user 1 ''admin@opencycle.com'' (3 * usecs_per_day),
        example_user 2 ''bob@example.org'' (3 * usecs_per_day + 7),
        example_user 3 ''carol@example.org'' (9 * usecs_per_day + 1)]
       [example_item 11 ''Books'' True, example_item 12 ''Books'' True,
        example_item 13 ''Toys'' True, example_item 14 ''Toys'' False]
       [\<lparr> v_id = 21, v_user_id = Some 2, v_created_at = 10 * usecs_per_day + 60 \<rparr>,
        \<lparr> v_id = 22, v_user_id = None, v_created_at = 10 * usecs_per_day + 61 \<rparr>]"

definition six_categories_db :: database where
  \<comment> \<open>six available items, each the only one of its category\<close>
  "six_categories_db =
     example_db []
       [example_item 1 ''Books'' True, example_item 2 ''Toys'' True,
        example_item 3 ''Tools'' True, example_item 4 ''Garden'' True,
        example_item 5 ''Sports'' True, example_item 6 ''Music'' True] []"

definition nothing_available_db :: database where
  "nothing_available_db = example_db [] [example_item 14 ''Toys'' False] []"

section \<open>The platform snapshot\<close>

lemma get_platform_analytics_returns:
  "get_platform_analytics s d db = Inr (get_platform_analytics_query s db)"
  by (simp add: get_platform_analytics_def return_query_def
      get_platform_analytics_variables_def get_platform_analytics_column_refs_def
      count_type_def numeral_eq_Suc)

lemma count_rows_nonneg: "0 \<le> count_rows xs"
  by (simp add: count_rows_def)

lemma count_distinct_nonneg: "0 \<le> count_distinct xs"
  by (simp add: count_distinct_def)

lemma count_distinct_le_count_rows:
  assumes "\<forall>x \<in> set xs. \<forall>u. x = Some u \<longrightarrow> u \<in> set ys"
  shows "count_distinct xs \<le> count_rows ys"
proof -
  let ?zs = "map the (filter (\<lambda>x. x \<noteq> None) xs)"
  have "set ?zs \<subseteq> set ys" using assms by auto
  then have "card (set ?zs) \<le> card (set ys)" by (simp add: card_mono)
  also have "\<dots> \<le> length ys" by (rule card_length)
  finally show ?thesis
    by (simp add: count_distinct_def count_rows_def length_remdups_card_conv)
qed

text \<open>
  Claim C5. In a database where every non-null \<open>item_views.user_id\<close> is the id of a row of
  \<open>users\<close>, \<open>get_platform_analytics\<close> returns one row, each of its ten counters is at
  least zero, and \<open>active_users_today\<close> is at most \<open>total_users\<close>.
\<close>

theorem platform_counters_nonneg_active_le_total:
  assumes fk: "\<forall>v \<in> set (item_views db). \<forall>uid. v_user_id v = Some uid \<longrightarrow>
                 uid \<in> set (map u_id (users db))"
  shows "\<exists>r. get_platform_analytics s days_back db = Inr [r] \<and>
           0 \<le> total_users r \<and> 0 \<le> total_items r \<and> 0 \<le> total_views r \<and>
           0 \<le> total_favorites r \<and> 0 \<le> total_messages r \<and> 0 \<le> total_reports r \<and>
           0 \<le> active_users_today r \<and> 0 \<le> new_users_today r \<and> 0 \<le> new_items_today r \<and>
           0 \<le> pending_reports r \<and>
           active_users_today r \<le> total_users r"
proof -
  let ?today = "filter (\<lambda>v. v_created_at v \<ge> midnight (current_date s)) (item_views db)"
  have "\<forall>x \<in> set (map v_user_id ?today). \<forall>u. x = Some u \<longrightarrow> u \<in> set (map u_id (users db))"
    using fk by auto
  then have "count_distinct (map v_user_id ?today) \<le> count_rows (map u_id (users db))"
    by (rule count_distinct_le_count_rows)
  then have le: "count_distinct (map v_user_id ?today) \<le> count_rows (users db)"
    by (simp add: count_rows_def)
  show ?thesis
    unfolding get_platform_analytics_returns get_platform_analytics_query_def
    using le by (simp add: count_rows_nonneg count_distinct_nonneg)
qed

text \<open>
  Claim C5, at a concrete state: in \<open>community_db\<close> the only view with a viewer is by
  member 2, shortly after midnight of day 10; one active user against three users.
\<close>

theorem platform_counters_nonneg_active_le_total_witness:
  "map v_user_id (item_views community_db) = [Some 2, None] \<and>
   map u_id (users community_db) = [1, 2, 3] \<and>
   (\<exists>r. get_platform_analytics (example_session (Some 2) (10 * usecs_per_day + 100)) None
            community_db = Inr [r] \<and>
         active_users_today r = 1 \<and> total_users r = 3 \<and>
         active_users_today r \<le> total_users r)"
proof -
  let ?s = "example_session (Some 2) (10 * usecs_per_day + 100)"
  have vs: "map v_user_id (item_views community_db) = [Some 2, None]"
    and us: "map u_id (users community_db) = [1, 2, 3]"
    by (simp_all add: community_db_def example_db_def example_user_def)
  have fk: "\<forall>v \<in> set (item_views community_db). \<forall>uid. v_user_id v = Some uid \<longrightarrow>
       uid \<in> set (map u_id (users community_db))"
    by (simp add: community_db_def example_db_def example_user_def)
  obtain r where r: "get_platform_analytics ?s None community_db = Inr [r]"
    and le: "active_users_today r \<le> total_users r"
    using platform_counters_nonneg_active_le_total [OF fk] by blast
  have "get_platform_analytics_query ?s community_db = [r]"
    using r by (simp add: get_platform_analytics_returns)
  then have "active_users_today r = 1 \<and> total_users r = 3"
    by (auto simp add: get_platform_analytics_query_def community_db_def example_db_def
        example_user_def example_session_def count_rows_def count_distinct_def
        current_date_def date_of_def midnight_def usecs_per_day_def)
  with vs us r le show ?thesis by blast
qed

text \<open>
  Claim C8 as stated fails: three of the counters are relative to \<open>CURRENT_DATE\<close>, which is
  read from the session and not from the database. On the same database, a snapshot
  taken in the last microsecond of day 9 counts the member who signed up on day 9 as a
  new user of today, and a snapshot taken one microsecond later does not.
\<close>

theorem snapshot_differs_across_midnight:
  "get_platform_analytics (example_session (Some 1) (10 * usecs_per_day - 1)) None community_db
   \<noteq> get_platform_analytics (example_session (Some 1) (10 * usecs_per_day)) None community_db"
  by (simp add: get_platform_analytics_returns get_platform_analytics_query_def
        community_db_def example_db_def example_user_def example_session_def count_rows_def
        count_distinct_def current_date_def date_of_def midnight_def usecs_per_day_def)

text \<open>
  Claim C8, amended. Two runs of \<open>get_platform_analytics\<close> on the same database state
  whose sessions have the same \<open>CURRENT_DATE\<close> return identical counters, whoever calls,
  at whatever time of that day, and with whatever \<open>days_back\<close>.
\<close>

theorem snapshot_repeatable_within_a_day:
  assumes "current_date s1 = current_date s2"
  shows "get_platform_analytics s1 d1 db = get_platform_analytics s2 d2 db"
  using assms by (simp add: get_platform_analytics_returns get_platform_analytics_query_def)

text \<open>
  Claim C8, amended, at a concrete state: the administrator early on day 10 and member 2
  in the last microsecond of day 10 get the same snapshot of \<open>community_db\<close>.
\<close>

theorem snapshot_repeatable_within_a_day_witness:
  "current_date (example_session (Some 1) (10 * usecs_per_day + 5)) =
     current_date (example_session (Some 2) (11 * usecs_per_day - 1)) \<and>
   get_platform_analytics (example_session (Some 1) (10 * usecs_per_day + 5)) (Some 30)
       community_db =
     get_platform_analytics (example_session (Some 2) (11 * usecs_per_day - 1)) None
       community_db"
proof -
  have h: "current_date (example_session (Some 1) (10 * usecs_per_day + 5)) =
     current_date (example_session (Some 2) (11 * usecs_per_day - 1))"
    by (simp add: current_date_def example_session_def date_of_def usecs_per_day_def)
  show ?thesis
    using h snapshot_repeatable_within_a_day [OF h, of "Some 30" community_db None] by simp
qed

section \<open>The user growth series\<close>

text \<open>
  The third column of the query is \<open>SUM(bigint) OVER (...)\<close>, of type \<open>numeric\<close>, and the
  function declares \<open>cumulative_users bigint\<close>: every call raises before it returns a row,
  on the types when the start of the window is a timestamp, on that start when it is not.
\<close>

lemma get_user_growth_data_raises:
  "get_user_growth_data s days_back db =
     (case window_start s days_back of
        Inl e \<Rightarrow> Inl e
      | Inr start \<Rightarrow> Inl (datatype_mismatch 3))"
  by (simp add: get_user_growth_data_def return_query_def get_user_growth_data_variables_def
      get_user_growth_data_column_refs_def get_user_growth_data_returned_def count_type_def
      split: sum.splits)

lemma get_user_growth_data_never_returns:
  "\<exists>e. get_user_growth_data s days_back db = Inl e"
  by (simp add: get_user_growth_data_raises split: sum.splits)

text \<open>
  The query itself, apart from the type of its third column: each date of the series
  meets at most one group of \<open>daily_users\<close>, so the join keeps the series as it is.
\<close>

lemma filter_eq_remdups:
  "filter (\<lambda>x. k = x) (remdups ks) = (if k \<in> set ks then [k] else [])"
  by (induction ks) auto

lemma filter_group_count:
  "filter (\<lambda>p. k = fst p) (group_count ks) =
     (if k \<in> set ks then [(k, count_rows (filter (\<lambda>x. x = k) ks))] else [])"
proof -
  have "filter (\<lambda>p. k = fst p) (group_count ks) =
      map (\<lambda>k. (k, count_rows (filter (\<lambda>x. x = k) ks))) (filter (\<lambda>x. k = x) (remdups ks))"
    by (simp add: group_count_def filter_map comp_def)
  then show ?thesis by (simp add: filter_eq_remdups)
qed

lemma count_rows_filter_absent:
  "k \<notin> set ks \<Longrightarrow> count_rows (filter (\<lambda>x. x = k) ks) = 0"
  by (auto simp add: count_rows_def filter_empty_conv)

lemma left_join_group_count:
  "left_join (\<lambda>x p. x = fst p) xs (group_count ks) =
     map (\<lambda>x. (x, if x \<in> set ks then Some (x, count_rows (filter (\<lambda>y. y = x) ks)) else None)) xs"
  by (induction xs) (simp_all add: left_join_def filter_group_count)

lemma coalesce_group_count:
  "coalesce (map_option snd (if x \<in> set ks then Some (x, count_rows (filter (\<lambda>y. y = x) ks)) else None)) 0
     = count_rows (filter (\<lambda>y. y = x) ks)"
  by (simp add: coalesce_def count_rows_filter_absent)

lemma growth_query_unfolded:
  fixes s w db
  defines "ks \<equiv> map (\<lambda>u. date_of (u_created_at u))
                   (filter (\<lambda>u. u_created_at u \<ge> midnight (current_date s - w)) (users db))"
  defines "cnt \<equiv> (\<lambda>d. count_rows (filter (\<lambda>y. y = d) ks))"
  defines "ds \<equiv> [current_date s - w .. current_date s]"
  assumes start: "timestamp_in_range (current_date s - w)"
    and stop: "0 \<le> w \<Longrightarrow> timestamp_in_range (current_date s + 1)"
  shows "get_user_growth_data_query s (Some w) db =
     Inr (map (\<lambda>d. \<lparr> date = d, new_users = cnt d,
                 cumulative_users = sum_list (map cnt (filter (\<lambda>d'. d' \<le> d) ds)) \<rparr>) ds)"
proof -
  let ?opt = "\<lambda>x. if x \<in> set ks then Some (x, cnt x) else None"
  let ?new = "\<lambda>j :: int \<times> (int \<times> int) option. coalesce (map_option snd (snd j)) 0"
  have ws: "window_start s (Some w) = Inr (Some (current_date s - w))"
    using start by (simp add: window_start_def)
  have du: "daily_users (Some (current_date s - w)) db = group_count ks"
    by (simp add: daily_users_def ks_def)
  have dsr: "date_series s (Some (current_date s - w)) = Inr ds"
    using stop by (auto simp add: date_series_def generate_series_def ds_def)
  have joined: "left_join (\<lambda>ds du. ds = fst du) ds (daily_users (Some (current_date s - w)) db)
      = map (\<lambda>x. (x, ?opt x)) ds"
    unfolding du cnt_def by (rule left_join_group_count)
  have new: "?new (x, ?opt x) = cnt x" for x
    unfolding cnt_def by (simp add: coalesce_def count_rows_filter_absent)
  have cum: "sum_over_order_by fst ?new (map (\<lambda>x. (x, ?opt x)) ds) (d, ?opt d)
      = sum_list (map cnt (filter (\<lambda>d'. d' \<le> d) ds))" for d
    unfolding sum_over_order_by_def filter_map map_map comp_def fst_conv new ..
  have rows: "map (\<lambda>j. \<lparr> date = fst j, new_users = ?new j,
                cumulative_users = sum_over_order_by fst ?new (map (\<lambda>x. (x, ?opt x)) ds) j \<rparr>)
             (map (\<lambda>x. (x, ?opt x)) ds)
      = map (\<lambda>d. \<lparr> date = d, new_users = cnt d,
                 cumulative_users = sum_list (map cnt (filter (\<lambda>d'. d' \<le> d) ds)) \<rparr>) ds"
    unfolding map_map comp_def fst_conv new cum ..
  have srt: "sorted (map date (map (\<lambda>d. \<lparr> date = d, new_users = cnt d,
                 cumulative_users = sum_list (map cnt (filter (\<lambda>d'. d' \<le> d) ds)) \<rparr>) ds))"
    by (simp add: comp_def ds_def)
  show ?thesis
    unfolding get_user_growth_data_query_def ws dsr sum.case Let_def joined rows
    by (simp only: sort_key_id_if_sorted [OF srt])
qed

lemma growth_query_out_of_range:
  assumes "\<not> timestamp_in_range (current_date s - w)"
  shows "get_user_growth_data_query s (Some w) db = Inl datetime_field_overflow"
  using assms by (simp add: get_user_growth_data_query_def window_start_def)

lemma filter_le_upto:
  assumes "d \<le> b"
  shows "filter (\<lambda>x. x \<le> d) [a..b] = [a..d]"
proof (cases "a \<le> d")
  case True
  have "[a..b] = [a..d] @ [d + 1..b]" using True assms by (rule upto_split2)
  moreover have "filter (\<lambda>x. x \<le> d) [a..d] = [a..d]" by (simp add: filter_id_conv)
  moreover have "filter (\<lambda>x. x \<le> d) [d + 1..b] = []" by (simp add: filter_empty_conv)
  ultimately show ?thesis by simp
next
  case False
  then show ?thesis by (simp add: filter_empty_conv)
qed

lemma mult_le_iff_le_div:
  fixes d k ts :: int
  assumes "0 < k"
  shows "d * k \<le> ts \<longleftrightarrow> d \<le> ts div k"
proof
  assume "d * k \<le> ts"
  then have "(d * k) div k \<le> ts div k" using assms by (rule zdiv_mono1)
  then show "d \<le> ts div k" using assms by simp
next
  assume "d \<le> ts div k"
  then have "d * k \<le> (ts div k) * k" using assms by (simp add: mult_right_mono)
  also have "\<dots> \<le> ts"
    using div_mult_mod_eq [of ts k] pos_mod_sign [OF assms, of ts] by linarith
  finally show "d * k \<le> ts" .
qed

lemma midnight_le_iff: "midnight d \<le> ts \<longleftrightarrow> d \<le> date_of ts"
  by (simp add: midnight_def date_of_def usecs_per_day_def mult_le_iff_le_div)


lemma count_rows_filter_map:
  "count_rows (filter P (map f xs)) = count_rows (filter (\<lambda>x. P (f x)) xs)"
  by (simp add: count_rows_def filter_map comp_def)

lemma count_rows_filter_split:
  assumes "\<And>x. \<not> (P x \<and> Q x)"
  shows "count_rows (filter (\<lambda>x. P x \<or> Q x) xs) = count_rows (filter P xs) + count_rows (filter Q xs)"
  using assms by (induction xs) (auto simp add: count_rows_def)

lemma sum_counts_upto:
  fixes a d :: int
  assumes "a - 1 \<le> d"
  shows "sum_list (map (\<lambda>k. count_rows (filter (\<lambda>y. y = k) ks)) [a..d]) =
         count_rows (filter (\<lambda>y. a \<le> y \<and> y \<le> d) ks)"
  using assms
proof (induction d rule: int_ge_induct)
  case base
  have "filter (\<lambda>y. a \<le> y \<and> y \<le> a - 1) ks = []" by (simp add: filter_empty_conv)
  then show ?case by (simp add: count_rows_def)
next
  case (step d)
  have split: "[a..d + 1] = [a..d] @ [d + 1]"
    using upto_rec2 [of a "d + 1"] step.hyps by simp
  have "(\<lambda>y. a \<le> y \<and> y \<le> d + 1) = (\<lambda>y. (a \<le> y \<and> y \<le> d) \<or> y = d + 1)"
    using step.hyps by auto
  then have "count_rows (filter (\<lambda>y. a \<le> y \<and> y \<le> d + 1) ks) =
      count_rows (filter (\<lambda>y. a \<le> y \<and> y \<le> d) ks) + count_rows (filter (\<lambda>y. y = d + 1) ks)"
    using count_rows_filter_split [of "\<lambda>y. a \<le> y \<and> y \<le> d" "\<lambda>y. y = d + 1" ks] by simp
  then show ?case using step.IH by (simp add: split)
qed

lemma growth_query_dates:
  assumes "timestamp_in_range (current_date s - w)"
    and "0 \<le> w \<Longrightarrow> timestamp_in_range (current_date s + 1)"
  shows "map date (projr (get_user_growth_data_query s (Some w) db)) =
           [current_date s - w .. current_date s]"
  by (simp add: growth_query_unfolded [OF assms] comp_def)

lemma growth_query_length:
  assumes "timestamp_in_range (current_date s - w)"
    and "0 \<le> w \<Longrightarrow> timestamp_in_range (current_date s + 1)"
  shows "length (projr (get_user_growth_data_query s (Some w) db)) = nat (w + 1)"
  by (simp add: growth_query_unfolded [OF assms])

lemma growth_query_nth:
  fixes s w db i
  assumes "int i \<le> w"
    and start: "timestamp_in_range (current_date s - w)"
    and stop: "timestamp_in_range (current_date s + 1)"
  defines "r \<equiv> projr (get_user_growth_data_query s (Some w) db) ! i"
  defines "a \<equiv> current_date s - w"
  shows "date r = a + int i"
    and "new_users r =
           count_rows (filter (\<lambda>u. date_of (u_created_at u) = a + int i) (users db))"
    and "cumulative_users r =
           count_rows (filter (\<lambda>u. a \<le> date_of (u_created_at u) \<and>
                                     date_of (u_created_at u) \<le> a + int i) (users db))"
proof -
  let ?ks = "map (\<lambda>u. date_of (u_created_at u))
               (filter (\<lambda>u. u_created_at u \<ge> midnight a) (users db))"
  let ?cnt = "\<lambda>d. count_rows (filter (\<lambda>y. y = d) ?ks)"
  let ?ds = "[a .. current_date s]"
  have len: "i < length ?ds" using assms(1) by (simp add: a_def)
  have nth: "?ds ! i = a + int i" using assms(1) by (simp add: a_def)
  have r: "r = \<lparr> date = a + int i, new_users = ?cnt (a + int i),
                 cumulative_users = sum_list (map ?cnt (filter (\<lambda>d'. d' \<le> a + int i) ?ds)) \<rparr>"
    unfolding r_def growth_query_unfolded [OF start stop] a_def [symmetric] sum.sel
    using len nth by simp
  show "date r = a + int i" by (simp add: r)
  have "?cnt (a + int i) =
      count_rows (filter (\<lambda>u. a \<le> date_of (u_created_at u) \<and> date_of (u_created_at u) = a + int i) (users db))"
    by (simp add: count_rows_filter_map midnight_le_iff conj_commute)
  also have "(\<lambda>u. a \<le> date_of (u_created_at u) \<and> date_of (u_created_at u) = a + int i)
      = (\<lambda>u. date_of (u_created_at u) = a + int i)" by auto
  finally show "new_users r =
      count_rows (filter (\<lambda>u. date_of (u_created_at u) = a + int i) (users db))"
    by (simp add: r)
  have "filter (\<lambda>d'. d' \<le> a + int i) ?ds = [a .. a + int i]"
    using assms(1) by (simp add: filter_le_upto a_def)
  then have "cumulative_users r = count_rows (filter (\<lambda>y. a \<le> y \<and> y \<le> a + int i) ?ks)"
    by (simp add: r sum_counts_upto)
  also have "\<dots> = count_rows (filter (\<lambda>u. a \<le> date_of (u_created_at u) \<and>
                                     date_of (u_created_at u) \<le> a + int i) (users db))"
    by (simp add: count_rows_filter_map midnight_le_iff)
  finally show "cumulative_users r =
           count_rows (filter (\<lambda>u. a \<le> date_of (u_created_at u) \<and>
                                     date_of (u_created_at u) \<le> a + int i) (users db))" .
qed

lemma count_rows_filter_between:
  fixes a :: int
  shows "count_rows (filter (\<lambda>u. a \<le> f u \<and> f u \<le> a) xs) = count_rows (filter (\<lambda>u. f u = a) xs)"
proof -
  have "(\<lambda>u. a \<le> f u \<and> f u \<le> a) = (\<lambda>u. f u = a)" by auto
  then show ?thesis by (simp only:)
qed

text \<open>
  What the query of \<open>get_user_growth_data\<close> computes for a window of at least one day whose
  first day and the day after today are timestamps: \<open>W + 1\<close> rows, one per day from
  \<open>today - W\<close> to today in increasing order, each with the number of users created on that
  day, and a running total that grows by the day's count.
\<close>

lemma growth_query_series:
  fixes s w db
  assumes "1 \<le> w"
    and start: "timestamp_in_range (current_date s - w)"
    and stop: "timestamp_in_range (current_date s + 1)"
  defines "rows \<equiv> projr (get_user_growth_data_query s (Some w) db)"
  shows "get_user_growth_data_query s (Some w) db = Inr rows"
    and "length rows = nat w + 1"
    and "map date rows = [current_date s - w .. current_date s]"
    and "\<And>i. i < length rows \<Longrightarrow> date (rows ! i) = current_date s - w + int i"
    and "\<And>i. i < length rows \<Longrightarrow>
           new_users (rows ! i) =
             count_rows (filter (\<lambda>u. date_of (u_created_at u) = date (rows ! i)) (users db))"
    and "\<And>i. 0 < i \<Longrightarrow> i < length rows \<Longrightarrow>
           cumulative_users (rows ! i) = cumulative_users (rows ! (i - 1)) + new_users (rows ! i)"
proof -
  let ?a = "current_date s - w"
  let ?d = "\<lambda>u. date_of (u_created_at u)"
  show "get_user_growth_data_query s (Some w) db = Inr rows"
    unfolding rows_def by (simp add: growth_query_unfolded [OF start stop])
  show len: "length rows = nat w + 1"
    using assms(1) by (simp add: rows_def growth_query_length [OF start stop] nat_add_distrib)
  show "map date rows = [?a .. current_date s]"
    by (simp add: rows_def growth_query_dates [OF start stop])
  show dt: "date (rows ! i) = ?a + int i" if "i < length rows" for i
    using that len assms(1) by (simp add: rows_def growth_query_nth(1) [OF _ start stop])
  show "new_users (rows ! i) = count_rows (filter (\<lambda>u. ?d u = date (rows ! i)) (users db))"
    if "i < length rows" for i
    using that len assms(1) dt [OF that]
    by (simp add: rows_def growth_query_nth(2) [OF _ start stop])
  show "cumulative_users (rows ! i) = cumulative_users (rows ! (i - 1)) + new_users (rows ! i)"
    if "0 < i" and "i < length rows" for i
  proof -
    have i: "int i \<le> w" and i1: "int (i - 1) \<le> w" using that len assms(1) by simp_all
    have eq: "(\<lambda>u. ?a \<le> ?d u \<and> ?d u \<le> ?a + int i) =
        (\<lambda>u. (?a \<le> ?d u \<and> ?d u \<le> ?a + int (i - 1)) \<or> ?d u = ?a + int i)"
      using that(1) by (auto simp add: of_nat_diff)
    have "count_rows (filter (\<lambda>u. ?a \<le> ?d u \<and> ?d u \<le> ?a + int i) (users db)) =
        count_rows (filter (\<lambda>u. ?a \<le> ?d u \<and> ?d u \<le> ?a + int (i - 1)) (users db)) +
        count_rows (filter (\<lambda>u. ?d u = ?a + int i) (users db))"
      unfolding eq using that(1) by (intro count_rows_filter_split) (auto simp add: of_nat_diff)
    then show ?thesis
      unfolding rows_def growth_query_nth(3) [OF i start stop]
        growth_query_nth(3) [OF i1 start stop] growth_query_nth(2) [OF i start stop] .
  qed
qed

text \<open>
  The running total starts at the first day of the window: the total of a row counts the
  users created from the start of the window to the end of the row's day, and no other.
\<close>

lemma growth_query_window_relative:
  fixes s w db
  assumes "0 \<le> w"
    and start: "timestamp_in_range (current_date s - w)"
    and stop: "timestamp_in_range (current_date s + 1)"
  defines "rows \<equiv> projr (get_user_growth_data_query s (Some w) db)"
  shows "cumulative_users (rows ! 0) = new_users (rows ! 0)"
    and "\<And>i. i < length rows \<Longrightarrow>
           cumulative_users (rows ! i) =
             count_rows (filter (\<lambda>u. midnight (current_date s - w) \<le> u_created_at u \<and>
                                       date_of (u_created_at u) \<le> date (rows ! i)) (users db))"
proof -
  have z: "int 0 \<le> w" using assms(1) by simp
  show "cumulative_users (rows ! 0) = new_users (rows ! 0)"
    unfolding rows_def growth_query_nth(3) [OF z start stop] growth_query_nth(2) [OF z start stop]
    by (simp add: count_rows_filter_between)
  show "cumulative_users (rows ! i) =
      count_rows (filter (\<lambda>u. midnight (current_date s - w) \<le> u_created_at u \<and>
                                date_of (u_created_at u) \<le> date (rows ! i)) (users db))"
    if "i < length rows" for i
  proof -
    have i: "int i \<le> w"
      using that assms(1) by (simp add: rows_def growth_query_length [OF start stop])
    show ?thesis
      unfolding rows_def growth_query_nth(3) [OF i start stop] growth_query_nth(1) [OF i start stop]
      by (simp add: midnight_le_iff)
  qed
qed

text \<open>
  Claim C2, amended. Let the window be an \<open>integer\<close> at most zero, and today and tomorrow be
  in the range of timestamps. The query of \<open>get_user_growth_data\<close> yields exactly one row,
  for today, when the window is zero. When the window is negative it yields no row at
  all as long as the day \<open>today - W\<close> is in the range of timestamps
  (\<open>generate_series\<close> from a start after its stop is empty), and raises
  \<open>datetime_field_overflow\<close> when that day is beyond the range.
\<close>

theorem growth_query_degenerate_window:
  assumes "w \<le> 0" and "int4_in_range w"
    and today: "timestamp_in_range (current_date s)"
    and tomorrow: "timestamp_in_range (current_date s + 1)"
  shows "get_user_growth_data_query s (Some w) db =
     (if w = 0
      then Inr [\<lparr> date = current_date s,
              new_users = count_rows (filter (\<lambda>u. date_of (u_created_at u) = current_date s)
                                        (users db)),
              cumulative_users = count_rows (filter (\<lambda>u. date_of (u_created_at u) = current_date s)
                                        (users db)) \<rparr>]
      else if timestamp_in_range (current_date s - w) then Inr []
      else Inl datetime_field_overflow)"
proof (cases "w = 0")
  case False
  show ?thesis
  proof (cases "timestamp_in_range (current_date s - w)")
    case True
    have "\<not> 0 \<le> w" using False assms(1) by simp
    then have "get_user_growth_data_query s (Some w) db = Inr []"
      using growth_query_unfolded [OF True, of db] by simp
    with False True show ?thesis by simp
  next
    case out: False
    with False show ?thesis by (simp add: growth_query_out_of_range)
  qed
next
  case True
  let ?rows = "projr (get_user_growth_data_query s (Some 0) db)"
  have start: "timestamp_in_range (current_date s - 0)" using today by simp
  have z: "int 0 \<le> 0" by simp
  have q: "get_user_growth_data_query s (Some 0) db = Inr ?rows"
    by (simp add: growth_query_unfolded [OF start tomorrow])
  have "length ?rows = 1" by (simp add: growth_query_length [OF start tomorrow])
  then have one: "?rows = [?rows ! 0]"
    by (cases ?rows) simp_all
  have "?rows ! 0 = \<lparr> date = current_date s,
              new_users = count_rows (filter (\<lambda>u. date_of (u_created_at u) = current_date s)
                                        (users db)),
              cumulative_users = count_rows (filter (\<lambda>u. date_of (u_created_at u) = current_date s)
                                        (users db)) \<rparr>"
    using growth_query_nth [OF z start tomorrow, of db]
    by (intro growth_row.equality) (simp_all add: count_rows_filter_between)
  with one q True show ?thesis by simp
qed

text \<open>
  Claim C2, amended, at a concrete state: on day 9 of \<open>community_db\<close> a window of zero
  gives the one row of day 9, a window of \<open>-3\<close> gives nothing, and the windows
  \<open>-110000000\<close> and \<open>-2147483648\<close> raise.
\<close>

theorem growth_query_degenerate_window_witness:
  "get_user_growth_data_query (example_session (Some 1) (9 * usecs_per_day + 5)) (Some 0)
       community_db = Inr [\<lparr> date = 9, new_users = 1, cumulative_users = 1 \<rparr>] \<and>
   get_user_growth_data_query (example_session (Some 1) (9 * usecs_per_day + 5)) (Some (- 3))
       community_db = Inr [] \<and>
   get_user_growth_data_query (example_session (Some 1) (9 * usecs_per_day + 5))
       (Some (- 110000000)) community_db = Inl datetime_field_overflow \<and>
   get_user_growth_data_query (example_session (Some 1) (9 * usecs_per_day + 5))
       (Some (- 2147483648)) community_db = Inl datetime_field_overflow"
proof -
  let ?s = "example_session (Some 1) (9 * usecs_per_day + 5)"
  have today: "current_date ?s = 9"
    by (simp add: current_date_def example_session_def date_of_def usecs_per_day_def)
  have n: "count_rows (filter (\<lambda>u. date_of (u_created_at u) = 9) (users community_db)) = 1"
    by (simp add: community_db_def example_db_def example_user_def count_rows_def date_of_def
        usecs_per_day_def)
  have r: "timestamp_in_range (current_date ?s)" "timestamp_in_range (current_date ?s + 1)"
    by (simp_all add: today timestamp_in_range_def min_day_def end_day_def)
  have w: "(0::int) \<le> 0" "(- 3 :: int) \<le> 0" "(- 110000000 :: int) \<le> 0"
      "(- 2147483648 :: int) \<le> 0"
    and i: "int4_in_range 0" "int4_in_range (- 3)" "int4_in_range (- 110000000)"
      "int4_in_range (- 2147483648)"
    by (simp_all add: int4_in_range_def)
  show ?thesis
    using growth_query_degenerate_window [OF w(1) i(1) r, of community_db]
      growth_query_degenerate_window [OF w(2) i(2) r, of community_db]
      growth_query_degenerate_window [OF w(3) i(3) r, of community_db]
      growth_query_degenerate_window [OF w(4) i(4) r, of community_db]
    by (simp add: today n timestamp_in_range_def min_day_def end_day_def)
qed

text \<open>
  Claim C2 as stated fails: with a window of \<open>-1\<close> the query has no row for today, it has
  no row.
\<close>

theorem negative_window_gives_no_row:
  "get_user_growth_data_query (example_session (Some 1) (10 * usecs_per_day + 5)) (Some (- 1))
     community_db = Inr []"
  by code_simp

text \<open>
  Claim C1 at a failing input: \<open>get_user_growth_data(2)\<close> on \<open>community_db\<close> raises
  \<open>datatype_mismatch\<close> on column 3, although its query has the three rows of the series.
\<close>

theorem growth_series_call_raises:
  "get_user_growth_data (example_session (Some 1) (10 * usecs_per_day + 5)) (Some 2) community_db
     = Inl (datatype_mismatch 3) \<and>
   get_user_growth_data_query (example_session (Some 1) (10 * usecs_per_day + 5)) (Some 2)
     community_db =
     Inr [\<lparr> date = 8, new_users = 0, cumulative_users = 0 \<rparr>,
          \<lparr> date = 9, new_users = 1, cumulative_users = 1 \<rparr>,
          \<lparr> date = 10, new_users = 0, cumulative_users = 1 \<rparr>]"
  by code_simp

text \<open>
  Claim C10 at a failing input: \<open>get_user_growth_data(1)\<close> on \<open>community_db\<close>, two of whose
  users signed up before the window. The query has the window-relative totals (the
  first row's total is its own count, the earlier users are in no total), and the call
  raises \<open>datatype_mismatch\<close> on column 3 instead of returning them.
\<close>

theorem window_relative_series_not_returned:
  "get_user_growth_data (example_session (Some 1) (10 * usecs_per_day + 5)) (Some 1) community_db
     = Inl (datatype_mismatch 3) \<and>
   get_user_growth_data_query (example_session (Some 1) (10 * usecs_per_day + 5)) (Some 1)
     community_db =
     Inr [\<lparr> date = 9, new_users = 1, cumulative_users = 1 \<rparr>,
          \<lparr> date = 10, new_users = 0, cumulative_users = 1 \<rparr>]"
  by code_simp

section \<open>The category distribution\<close>

text \<open>
  \<open>total_items\<close> reads \<open>SUM(item_count)\<close> without an alias, and \<open>item_count\<close> is also a
  column of \<open>RETURNS TABLE\<close>, hence a variable of the body: every call raises when the
  statement is planned, before it reads a row.
\<close>

lemma get_category_distribution_raises:
  "get_category_distribution db = Inl (ambiguous_column ''item_count'')"
  by (simp add: get_category_distribution_def return_query_def
      get_category_distribution_variables_def get_category_distribution_column_refs_def)

text \<open>
  The query itself, apart from that reference: the counts of the groups add up to the
  number of available items, so the divisor is zero only when there is no group, and then
  the cross join has no row on which to divide.
\<close>

lemma all_rows_Inr: "all_rows (map (\<lambda>x. Inr (f x)) xs) = Inr (map f xs)"
  by (induction xs) simp_all

lemma count_rows_filter_eq: "count_rows (filter (\<lambda>x. x = k) ks) = int (count_list ks k)"
proof -
  have "(\<lambda>x. x = k) = ((=) k)" by auto
  then show ?thesis by (simp add: count_rows_def count_list_eq_length_filter)
qed

lemma sum_group_count: "sum_list (map snd (group_count ks)) = count_rows ks"
proof -
  have "sum_list (map snd (group_count ks)) = sum_list (map (\<lambda>k. int (count_list ks k)) (remdups ks))"
    by (simp add: group_count_def comp_def count_rows_filter_eq)
  also have "\<dots> = (\<Sum>k\<in>set ks. int (count_list ks k))"
    using sum_list_distinct_conv_sum_set [of "remdups ks" "\<lambda>k. int (count_list ks k)"] by simp
  also have "\<dots> = int (\<Sum>k\<in>set ks. count_list ks k)" by simp
  also have "\<dots> = int (length ks)" by (simp add: sum_count_set)
  finally show ?thesis by (simp add: count_rows_def)
qed

lemma group_count_Nil_iff: "group_count ks = [] \<longleftrightarrow> ks = []"
  by (simp add: group_count_def)

lemma group_count_pos: "c \<in> set (group_count ks) \<Longrightarrow> 1 \<le> snd c"
  using count_list_0_iff [of ks "fst c"]
  by (auto simp add: group_count_def count_rows_filter_eq)

lemma category_query_unfolded:
  fixes db
  defines "cc \<equiv> category_counts db"
  defines "T \<equiv> count_rows (filter (\<lambda>i. i_is_available i = True) (items db))"
  shows "get_category_distribution_query db =
     Inr (sort_key (\<lambda>r. - item_count r)
       (map (\<lambda>c. \<lparr> category = fst c, item_count = snd c,
                    percentage = Some (round_numeric (of_int (snd c) / of_int T * 100) 2) \<rparr>) cc))"
proof (cases "cc = []")
  case True
  then show ?thesis
    by (simp add: get_category_distribution_query_def cc_def [symmetric] cross_join_def)
next
  case False
  have tot: "sum_list (map snd cc) = T"
    by (simp add: cc_def category_counts_def sum_group_count T_def count_rows_def)
  have "T \<noteq> 0"
    using False by (simp add: cc_def category_counts_def group_count_Nil_iff T_def count_rows_def)
  then have pe: "percentage_expr n (Some T) = Inr (Some (round_numeric (of_int n / of_int T * 100) 2))" for n
    by (simp add: percentage_expr_def numeric_div_def)
  have ti: "total_items_cte cc = [Some T]"
    using False by (simp add: total_items_cte_def sum_rows_def tot)
  show ?thesis
    unfolding get_category_distribution_query_def cc_def [symmetric] Let_def ti
    by (simp add: cross_join_def comp_def pe all_rows_Inr)
qed


text \<open>Rounding to two decimal places moves a value by at most half a hundredth.\<close>

lemma round_numeric_error: "\<bar>round_numeric x 2 - x\<bar> \<le> 1 / 200"
proof -
  define d where "d = of_int (round (\<bar>x\<bar> * 100)) - \<bar>x\<bar> * 100"
  have r: "\<bar>d\<bar> \<le> 1 / 2" unfolding d_def by (rule of_int_round_abs_le)
  have "x = sgn x * \<bar>x\<bar>" by (simp add: sgn_mult_abs)
  then have "sgn x * d / 100 = sgn x * of_int (round (\<bar>x\<bar> * 100)) / 100 - x"
    unfolding d_def by (simp add: algebra_simps diff_divide_distrib)
  then have "round_numeric x 2 - x = sgn x * d / 100"
    by (simp add: round_numeric_def round_def)
  then have "\<bar>round_numeric x 2 - x\<bar> = \<bar>sgn x\<bar> * \<bar>d\<bar> / 100"
    by (simp only: abs_mult abs_divide abs_numeral)
  also have "\<dots> \<le> 1 * (1 / 2) / 100"
    using r by (intro divide_right_mono mult_mono) (auto simp add: abs_sgn_eq)
  finally show ?thesis by simp
qed

lemma sum_list_insort_key:
  fixes g :: "'a \<Rightarrow> 'b::comm_monoid_add"
  shows "sum_list (map g (insort_key f x ys)) = g x + sum_list (map g ys)"
  by (induction ys) (simp_all add: ac_simps)

lemma sum_list_sort_key:
  fixes g :: "'a \<Rightarrow> 'b::comm_monoid_add"
  shows "sum_list (map g (sort_key f xs)) = sum_list (map g xs)"
  by (induction xs) (simp_all add: sum_list_insort_key)

lemma sum_list_error_bound:
  fixes p x :: "'a \<Rightarrow> rat"
  assumes "\<And>c. c \<in> set cs \<Longrightarrow> \<bar>p c - x c\<bar> \<le> e"
  shows "\<bar>sum_list (map p cs) - sum_list (map x cs)\<bar> \<le> of_nat (length cs) * e"
  using assms
proof (induction cs)
  case Nil
  then show ?case by simp
next
  case (Cons c cs)
  have "\<bar>p c - x c\<bar> \<le> e" using Cons.prems by simp
  moreover have "\<bar>sum_list (map p cs) - sum_list (map x cs)\<bar> \<le> of_nat (length cs) * e"
    using Cons by simp
  ultimately show ?case by (simp add: algebra_simps)
qed

lemma exact_percentages_sum:
  fixes T :: int
  assumes "T \<noteq> 0" and "sum_list (map snd cc) = T"
  shows "sum_list (map (\<lambda>c. of_int (snd c) / of_int T * 100) cc) = (100 :: rat)"
proof -
  have "sum_list (map (\<lambda>c. of_int (snd c) / of_int T * 100) cc)
      = (of_int (sum_list (map snd cc)) :: rat) / of_int T * 100"
    by (induction cc) (simp_all add: algebra_simps add_divide_distrib)
  then show ?thesis using assms by simp
qed


text \<open>
  Six available items in six categories: each share is \<open>16.666...\<close>, rounded up to
  \<open>16.67\<close>.
\<close>

lemma six_eval:
  "get_category_distribution_query six_categories_db =
     Inr (map (\<lambda>c. \<lparr> category = c, item_count = 1, percentage = Some (1667 / 100) \<rparr>)
            [''Books'', ''Toys'', ''Tools'', ''Garden'', ''Sports'', ''Music''])"
  by (simp add: get_category_distribution_query_def category_counts_def group_count_def
      six_categories_db_def example_db_def example_item_def count_rows_def total_items_cte_def
      sum_rows_def cross_join_def percentage_expr_def numeric_div_def round_numeric_def
      floor_eq_iff)

text \<open>
  Claim C4 as stated fails: the six percentages of the query on \<open>six_categories_db\<close> add
  up to \<open>100.02\<close>, which is further than \<open>0.01\<close> from \<open>100\<close>.
\<close>

theorem six_single_item_categories_sum:
  "\<not> isl (get_category_distribution_query six_categories_db) \<and>
   sum_percentages (projr (get_category_distribution_query six_categories_db)) = 10002 / 100 \<and>
   \<not> \<bar>sum_percentages (projr (get_category_distribution_query six_categories_db)) - 100\<bar> \<le> 1 / 100"
  by (simp add: six_eval sum_percentages_def coalesce_def)

text \<open>
  Claim C4, amended. Whenever at least one item is available, the percentages of the rows
  of the query of \<open>get_category_distribution\<close> sum to \<open>100.00\<close> within \<open>0.005\<close> times the
  number of rows (every row is rounded on its own, and each rounding moves the sum by at
  most \<open>0.005\<close>).
\<close>

theorem category_percentages_sum_tolerance:
  assumes "\<exists>i \<in> set (items db). i_is_available i = True"
  shows "\<exists>rows. get_category_distribution_query db = Inr rows \<and>
           \<bar>sum_percentages rows - 100\<bar> \<le> of_nat (length rows) / 200"
proof -
  define cc where "cc = category_counts db"
  define T where "T = count_rows (filter (\<lambda>i. i_is_available i = True) (items db))"
  define x :: "string \<times> int \<Rightarrow> rat" where "x = (\<lambda>c. of_int (snd c) / of_int T * 100)"
  define rows where "rows = sort_key (\<lambda>r. - item_count r)
       (map (\<lambda>c. \<lparr> category = fst c, item_count = snd c,
                    percentage = Some (round_numeric (x c) 2) \<rparr>) cc)"
  have q: "get_category_distribution_query db = Inr rows"
    unfolding rows_def x_def cc_def T_def by (rule category_query_unfolded)
  have "filter (\<lambda>i. i_is_available i = True) (items db) \<noteq> []"
    using assms by (simp add: filter_empty_conv)
  then have T0: "T \<noteq> 0" by (simp add: T_def count_rows_def)
  have tot: "sum_list (map snd cc) = T"
    by (simp add: cc_def category_counts_def sum_group_count T_def count_rows_def)
  have exact: "sum_list (map x cc) = 100"
    unfolding x_def using T0 tot by (rule exact_percentages_sum)
  have sp: "sum_percentages rows = sum_list (map (\<lambda>c. round_numeric (x c) 2) cc)"
    by (simp add: sum_percentages_def rows_def sum_list_sort_key comp_def coalesce_def)
  have "\<bar>sum_list (map (\<lambda>c. round_numeric (x c) 2) cc) - sum_list (map x cc)\<bar>
      \<le> of_nat (length cc) * (1 / 200)"
    by (rule sum_list_error_bound) (rule round_numeric_error)
  moreover have "length rows = length cc" by (simp add: rows_def)
  ultimately have "\<bar>sum_percentages rows - 100\<bar> \<le> of_nat (length rows) / 200"
    by (simp add: sp exact)
  with q show ?thesis by blast
qed

text \<open>
  Claim C4, amended, at a concrete state: \<open>community_db\<close> has two categories of available
  items, \<open>66.67\<close> and \<open>33.33\<close>.
\<close>

theorem category_percentages_sum_tolerance_witness:
  "i_is_available (items community_db ! 0) = True \<and>
   (\<exists>rows. get_category_distribution_query community_db = Inr rows \<and>
      length rows = 2 \<and> sum_percentages rows = 100 \<and>
      \<bar>sum_percentages rows - 100\<bar> \<le> of_nat (length rows) / 200)"
proof -
  have a: "i_is_available (items community_db ! 0) = True"
    by (simp add: community_db_def example_db_def example_item_def)
  have h: "\<exists>i \<in> set (items community_db). i_is_available i = True"
    by (simp add: community_db_def example_db_def example_item_def)
  obtain rows where q: "get_category_distribution_query community_db = Inr rows"
    and b: "\<bar>sum_percentages rows - 100\<bar> \<le> of_nat (length rows) / 200"
    using category_percentages_sum_tolerance [OF h] by blast
  have "get_category_distribution_query community_db =
      Inr [\<lparr> category = ''Books'', item_count = 2, percentage = Some (6667 / 100) \<rparr>,
           \<lparr> category = ''Toys'', item_count = 1, percentage = Some (3333 / 100) \<rparr>]"
    by code_simp
  with q have "length rows = 2 \<and> sum_percentages rows = 100"
    by (auto simp add: sum_percentages_def coalesce_def)
  with a q b show ?thesis by blast
qed

text \<open>
  What the query of \<open>get_category_distribution\<close> computes: one row per distinct category
  of the available items, with the number of available items of the category, that
  number as a percentage of all available items rounded to two places, in descending
  order of the count.
\<close>

lemma category_query_rows:
  fixes db
  defines "avail \<equiv> filter (\<lambda>i. i_is_available i = True) (items db)"
  shows "\<exists>rows. get_category_distribution_query db = Inr rows \<and>
           distinct (map category rows) \<and>
           set (map category rows) = set (map i_category avail) \<and>
           (\<forall>r \<in> set rows.
              item_count r = count_rows (filter (\<lambda>i. i_category i = category r) avail) \<and>
              percentage r =
                Some (round_numeric (of_int (item_count r) / of_int (count_rows avail) * 100) 2)) \<and>
           sorted (rev (map item_count rows))"
proof -
  define cc where "cc = category_counts db"
  define mk :: "string \<times> int \<Rightarrow> category_row" where
    "mk = (\<lambda>c. \<lparr> category = fst c, item_count = snd c,
                 percentage = Some (round_numeric (of_int (snd c) / of_int (count_rows avail) * 100) 2) \<rparr>)"
  define rows where "rows = sort_key (\<lambda>r. - item_count r) (map mk cc)"
  have q: "get_category_distribution_query db = Inr rows"
    unfolding rows_def mk_def cc_def avail_def by (rule category_query_unfolded)
  have cats: "map category (map mk cc) = remdups (map i_category avail)"
    by (simp add: mk_def cc_def category_counts_def group_count_def comp_def avail_def)
  have "distinct (map category (map mk cc))" unfolding cats by simp
  then have d: "distinct (map category rows)"
    unfolding rows_def by (metis distinct_map distinct_sort set_sort)
  have "set (map category rows) = set (map category (map mk cc))"
    unfolding rows_def by (simp add: image_image)
  then have st: "set (map category rows) = set (map i_category avail)"
    unfolding cats by simp
  have each: "item_count r = count_rows (filter (\<lambda>i. i_category i = category r) avail) \<and>
      percentage r = Some (round_numeric (of_int (item_count r) / of_int (count_rows avail) * 100) 2)"
    if "r \<in> set rows" for r
  proof -
    from that obtain c where c: "c \<in> set cc" and r: "r = mk c"
      by (auto simp add: rows_def)
    from c have "snd c = count_rows (filter (\<lambda>x. x = fst c) (map i_category avail))"
      by (auto simp add: cc_def category_counts_def group_count_def avail_def)
    then have "snd c = count_rows (filter (\<lambda>i. i_category i = fst c) avail)"
      by (simp add: count_rows_filter_map)
    then show ?thesis by (simp add: r mk_def)
  qed
  have "sorted (map (\<lambda>r. - item_count r) rows)"
    unfolding rows_def by (rule sorted_sort_key)
  then have "sorted (rev (map item_count rows))"
    by (induction rows) (auto simp add: sorted_append)
  with q d st each show ?thesis by blast
qed

lemma category_query_nothing_available:
  assumes "filter (\<lambda>i. i_is_available i = True) (items db) = []"
  shows "get_category_distribution_query db = Inr []"
  using assms
  by (simp add: category_query_unfolded category_counts_def group_count_def)

lemma category_query_total: "\<exists>rows. get_category_distribution_query db = Inr rows"
  by (simp add: category_query_unfolded)

text \<open>
  Claim C3 at a failing input: on \<open>community_db\<close> the call raises \<open>ambiguous_column\<close> for
  \<open>item_count\<close>, although its query has the two rows of the distribution.
\<close>

theorem category_distribution_call_raises:
  "get_category_distribution community_db = Inl (ambiguous_column ''item_count'') \<and>
   get_category_distribution_query community_db =
     Inr [\<lparr> category = ''Books'', item_count = 2, percentage = Some (6667 / 100) \<rparr>,
          \<lparr> category = ''Toys'', item_count = 1, percentage = Some (3333 / 100) \<rparr>]"
  by code_simp

text \<open>
  Claim C7 at a failing input: with no available item the query has no row and divides
  nothing, and the call still raises \<open>ambiguous_column\<close> instead of returning that empty
  result.
\<close>

theorem nothing_available_call_raises:
  "get_category_distribution nothing_available_db = Inl (ambiguous_column ''item_count'') \<and>
   get_category_distribution_query nothing_available_db = Inr []"
  by code_simp

section \<open>Who may call: the administrator check\<close>

text \<open>
  None of the four function bodies reads \<open>auth.uid()\<close> for a check, and the one policy
  that could stop a write does not bind the role the body runs as.
\<close>

lemma get_platform_analytics_ignores_caller:
  "get_platform_analytics (s\<lparr> auth_uid := uid \<rparr>) d db = get_platform_analytics s d db"
  by (simp add: get_platform_analytics_returns get_platform_analytics_query_def current_date_def)


lemma insert_admin_logs_policy:
  assumes "\<not> is_admin db (auth_uid s)" and "user_agent_header s = Inr user_agent"
  shows "insert_admin_logs authenticated s action target_type target_id details db =
     Inl row_security_violation"
  using assms by (simp add: insert_admin_logs_def)

text \<open>
  Claim C6 at a failing input: member 2 of \<open>community_db\<close> (\<open>bob@example.org\<close>, not an
  administrator) calls \<open>get_platform_analytics\<close> and \<open>log_admin_action\<close>. The first
  returns the counters; the second appends a log row with the member as \<open>admin_id\<close>.
\<close>

theorem member_reads_counters_and_writes_log:
  "\<not> is_admin community_db (Some 2) \<and>
   get_platform_analytics (example_session (Some 2) (10 * usecs_per_day + 100)) None community_db =
     Inr [\<lparr> total_users = 3, total_items = 4, total_views = 2, total_favorites = 0,
            total_messages = 0, total_reports = 0, active_users_today = 1,
            new_users_today = 0, new_items_today = 0, pending_reports = 0 \<rparr>] \<and>
   log_admin_action (example_session (Some 2) (10 * usecs_per_day + 100))
       (Some ''delete_item'') (Some ''item'') (Some 11) None community_db =
     Inr (community_db\<lparr> admin_logs :=
            [\<lparr> l_id = 900, l_admin_id = Some 2, l_action = ''delete_item'',
               l_target_type = Some ''item'', l_target_id = Some 11, l_details = None,
               l_ip_address = Some ''203.0.113.9'', l_user_agent = Some ''curl/8.5.0'',
               l_created_at = 10 * usecs_per_day + 100 \<rparr>] \<rparr>)"
  by code_simp

section \<open>A target id that is not a uuid\<close>

text \<open>
  Whatever the input function of \<open>uuid\<close> accepts has exactly thirty-two hexadecimal
  digits: a text with more or fewer is not a uuid.
\<close>

lemma uuid_bytes_hex_digits:
  assumes "uuid_bytes is src = Some (bs, rest)"
  shows "length (filter isxdigit src) = 2 * length is + length (filter isxdigit rest)"
  using assms
proof (induction "is" src arbitrary: bs rest rule: uuid_bytes.induct)
  case (2 i "is" a b src)
  let ?src' = "case src of
                 c # cs \<Rightarrow> if c = CHR ''-'' \<and> i mod 2 = 1 \<and> i < 15 then cs else src
               | [] \<Rightarrow> src"
  from "2.prems" have hex: "isxdigit a \<and> isxdigit b"
    by (simp split: if_splits)
  with "2.prems" obtain bs' where "uuid_bytes is ?src' = Some (bs', rest)"
    by (auto split: if_splits)
  with "2.IH" hex have "length (filter isxdigit ?src') =
      2 * length is + length (filter isxdigit rest)" by blast
  moreover have "length (filter isxdigit ?src') = length (filter isxdigit src)"
    by (simp add: isxdigit_def split: list.splits)
  ultimately show ?case using hex by simp
qed simp_all

lemma uuid_in_hex_digits:
  assumes "uuid_in t = Some u"
  shows "length (filter isxdigit t) = 32"
proof -
  let ?braces = "case t of c # cs \<Rightarrow> c = CHR ''{'' | [] \<Rightarrow> False"
  let ?src = "if ?braces then tl t else t"
  from assms obtain bs rest where b: "uuid_bytes [0..<16] ?src = Some (bs, rest)"
    and r: "rest = (if ?braces then ''}'' else [])"
    by (auto simp add: uuid_in_def Let_def split: option.splits if_splits)
  have "length (filter isxdigit ?src) = 32 + length (filter isxdigit rest)"
    using uuid_bytes_hex_digits [OF b] by simp
  moreover have "length (filter isxdigit rest) = 0"
    by (simp add: r isxdigit_def)
  moreover have "length (filter isxdigit ?src) = length (filter isxdigit t)"
    by (cases t) (simp_all add: isxdigit_def)
  ultimately show ?thesis by simp
qed

lemma call_log_admin_action_bad_details:
  assumes "jsonb_in d = None"
    and "target_id_text = None \<or> (\<exists>t u. target_id_text = Some t \<and> uuid_in t = Some u)"
  shows "call_log_admin_action jsonb_in s action_name target_type target_id_text (Some d) db =
     Inl (invalid_text_representation d)"
  using assms by (auto simp add: call_log_admin_action_def)

lemma call_log_admin_action_wrong_digit_count:
  assumes "length (filter isxdigit t) \<noteq> 32"
  shows "call_log_admin_action jsonb_in s action_name target_type (Some t) details db =
     Inl (invalid_text_representation t)"
proof -
  have "uuid_in t = None"
    using assms uuid_in_hex_digits [of t] by (cases "uuid_in t") auto
  then show ?thesis by (simp add: call_log_admin_action_def)
qed




end
